theory Spec2Isabelle
  imports Main "HOL-Library.Sublist" "HOL-Library.AList" "HOL-Library.Char_ord"
    "HOL-Library.List_Lexorder"
begin

section \<open>Go strings\<close>

text \<open>
  A Go string is a sequence of bytes, here a \<^typ>\<open>string\<close>. The functions of package
  \<^verbatim>\<open>strings\<close> that the program calls are written out on bytes. Those that look for
  white space (\<^verbatim>\<open>Fields\<close>, \<^verbatim>\<open>TrimSpace\<close>) use \<^verbatim>\<open>unicode.IsSpace\<close> on the runes of
  the UTF-8 decoding; the runes with that property are listed by their encodings. Each
  encoding begins with a byte that is not a UTF-8 continuation byte, so it is found at a
  position of the byte sequence exactly when the decoder finds that rune there.
\<close>

definition spaceEncodings :: "string list" where
  "spaceEncodings =
     [[CHR 0x09], [CHR 0x0A], [CHR 0x0B], [CHR 0x0C], [CHR 0x0D], [CHR 0x20],
      [CHR 0xC2, CHR 0x85], [CHR 0xC2, CHR 0xA0],
      [CHR 0xE1, CHR 0x9A, CHR 0x80],
      [CHR 0xE2, CHR 0x80, CHR 0x80], [CHR 0xE2, CHR 0x80, CHR 0x81],
      [CHR 0xE2, CHR 0x80, CHR 0x82], [CHR 0xE2, CHR 0x80, CHR 0x83],
      [CHR 0xE2, CHR 0x80, CHR 0x84], [CHR 0xE2, CHR 0x80, CHR 0x85],
      [CHR 0xE2, CHR 0x80, CHR 0x86], [CHR 0xE2, CHR 0x80, CHR 0x87],
      [CHR 0xE2, CHR 0x80, CHR 0x88], [CHR 0xE2, CHR 0x80, CHR 0x89],
      [CHR 0xE2, CHR 0x80, CHR 0x8A],
      [CHR 0xE2, CHR 0x80, CHR 0xA8], [CHR 0xE2, CHR 0x80, CHR 0xA9],
      [CHR 0xE2, CHR 0x80, CHR 0xAF], [CHR 0xE2, CHR 0x81, CHR 0x9F],
      [CHR 0xE3, CHR 0x80, CHR 0x80]]"

text \<open>The width in bytes of the white-space rune at the head of a string, 0 if there is none.\<close>

definition spaceLen :: "string \<Rightarrow> nat" where
  "spaceLen s = (case find (\<lambda>e. prefix e s) spaceEncodings of None \<Rightarrow> 0 | Some e \<Rightarrow> length e)"

text \<open>The width of the white-space rune at the end of a string, 0 if there is none.\<close>

definition spaceLenR :: "string \<Rightarrow> nat" where
  "spaceLenR s = (case find (\<lambda>e. suffix e s) spaceEncodings of None \<Rightarrow> 0 | Some e \<Rightarrow> length e)"

text \<open>
  \<^verbatim>\<open>strings.Fields\<close>: the maximal runs of bytes between white space. \<open>cur\<close> is the field
  being read, empty when none has started.
\<close>

fun fieldsFrom :: "string \<Rightarrow> string \<Rightarrow> string list" where
  "fieldsFrom cur [] = (if cur = [] then [] else [cur])"
| "fieldsFrom cur (c # cs) =
     (if 0 < spaceLen (c # cs)
      then (if cur = [] then [] else [cur]) @ fieldsFrom [] (drop (spaceLen (c # cs) - 1) cs)
      else fieldsFrom (cur @ [c]) cs)"

definition Fields :: "string \<Rightarrow> string list" where
  "Fields s = fieldsFrom [] s"

text \<open>\<^verbatim>\<open>strings.HasPrefix\<close> is \<^const>\<open>prefix\<close>; \<^verbatim>\<open>strings.CutPrefix\<close>:\<close>

definition CutPrefix :: "string \<Rightarrow> string \<Rightarrow> string option" where
  "CutPrefix p s = (if prefix p s then Some (drop (length p) s) else None)"

text \<open>\<^verbatim>\<open>strings.Cut(s, sep)\<close> for a one-byte separator: the text before the first
  separator (all of \<open>s\<close> when there is none).\<close>

definition CutBefore :: "char \<Rightarrow> string \<Rightarrow> string" where
  "CutBefore sep s = takeWhile (\<lambda>c. c \<noteq> sep) s"

text \<open>\<^verbatim>\<open>strings.Join\<close>.\<close>

fun Join :: "string list \<Rightarrow> string \<Rightarrow> string" where
  "Join [] sep = []"
| "Join [x] sep = x"
| "Join (x # y # ys) sep = x @ sep @ Join (y # ys) sep"

section \<open>Version normalizer (osvutil)\<close>

definition isDigit :: "char \<Rightarrow> bool" where
  "isDigit c = (c \<in> set ''0123456789'')"

text \<open>
  The tail \<^verbatim>\<open>((beta|rc|-pre)(\d+))?$\<close> of \<^verbatim>\<open>tagRegexp\<close>: groups 3, 4 and 5 on the rest of
  the tag, which must be used up.
\<close>

definition matchPre :: "string \<Rightarrow> (string \<times> string \<times> string) option" where
  "matchPre r =
     (if r = [] then Some ([], [], [])
      else case find (\<lambda>k. prefix k r) [''beta'', ''rc'', ''-pre''] of
        None \<Rightarrow> None
      | Some k \<Rightarrow>
          (let n = drop (length k) r
           in if n \<noteq> [] \<and> list_all isDigit n then Some (r, k, n) else None))"

text \<open>
  The group \<^verbatim>\<open>(\.\d+|)\<close> of \<^verbatim>\<open>tagRegexp\<close>: group 2 and the rest of the tag. The
  first alternative is tried first and can only fail at once, so the empty alternative is
  taken exactly when no dot with a digit follows.
\<close>

definition matchPatch :: "string \<Rightarrow> string \<times> string" where
  "matchPatch r3 =
     (case r3 of
        [] \<Rightarrow> ([], [])
      | d # r \<Rightarrow>
          if d = CHR ''.'' \<and> takeWhile isDigit r \<noteq> []
          then (d # takeWhile isDigit r, dropWhile isDigit r)
          else ([], r3))"

text \<open>
  \<^verbatim>\<open>tagRegexp.FindStringSubmatch\<close> for
  \<^verbatim>\<open>^go(\d+\.\d+)(\.\d+|)((beta|rc|-pre)(\d+))?$\<close>: the groups 1 to 5 when the whole tag
  matches, \<open>None\<close> for Go's nil. What follows a run of digits in the expression is never a
  digit, so each \<^verbatim>\<open>\d+\<close> takes the whole run of digits.
\<close>

definition tagRegexpFind :: "string \<Rightarrow> (string \<times> string \<times> string \<times> string \<times> string) option" where
  "tagRegexpFind tag =
     (case CutPrefix ''go'' tag of
        None \<Rightarrow> None
      | Some r0 \<Rightarrow>
          (let major = takeWhile isDigit r0; r1 = dropWhile isDigit r0
           in if major = [] then None
              else case r1 of
                [] \<Rightarrow> None
              | c # r2 \<Rightarrow>
                  if c \<noteq> CHR ''.'' then None
                  else
                    (let minor = takeWhile isDigit r2; r3 = dropWhile isDigit r2
                     in if minor = [] then None
                        else
                          (let (patch, r4) = matchPatch r3
                           in case matchPre r4 of
                                None \<Rightarrow> None
                              | Some (m3, m4, m5) \<Rightarrow>
                                  Some (major @ ''.'' @ minor, patch, m3, m4, m5)))))"

datatype panic = IndexOutOfRange

text \<open>
  \<^verbatim>\<open>GoTagToSemver\<close>. \<^verbatim>\<open>strings.Fields(tag)[0]\<close> indexes the list of fields without a
  check: on a tag with no field the Go runtime panics, which is \<open>Inl IndexOutOfRange\<close>.
\<close>

definition GoTagToSemver :: "string \<Rightarrow> panic + string" where
  "GoTagToSemver tag =
     (if tag = [] then Inr []
      else case Fields tag of
        [] \<Rightarrow> Inl IndexOutOfRange
      | tag0 # _ \<Rightarrow>
          if tag0 = ''go1'' then Inr ''v1.0.0''
          else if tag0 = ''go1.0'' then Inr []
          else case tagRegexpFind tag0 of
            None \<Rightarrow> Inr []
          | Some (m1, m2, m3, m4, m5) \<Rightarrow>
              (let version = ''v'' @ m1;
                   version = (if m2 \<noteq> [] then version @ m2 else version @ ''.0'');
                   version = (if m3 \<noteq> []
                              then (if \<not> prefix ''-'' m4 then version @ ''-'' else version)
                                   @ m4 @ ''.'' @ m5
                              else version)
               in Inr version))"

text \<open>
  The grammar of a toolchain release tag in the words of the specification:
  \<^verbatim>\<open>go<major>.<minor>[.<patch>][<pre>]\<close>, where \<^verbatim>\<open><pre>\<close> is one of \<^verbatim>\<open>beta<n>\<close>,
  \<^verbatim>\<open>rc<n>\<close>, \<^verbatim>\<open>-pre<n>\<close>, and every number is a non-empty run of decimal digits.
\<close>

definition number :: "string \<Rightarrow> bool" where
  "number n = (n \<noteq> [] \<and> list_all isDigit n)"

definition goTagGrammar :: "string \<Rightarrow> bool" where
  "goTagGrammar tag =
     (\<exists>major minor patch pre.
        tag = ''go'' @ major @ ''.'' @ minor @ patch @ pre \<and>
        number major \<and> number minor \<and>
        (patch = [] \<or> (\<exists>p. patch = ''.'' @ p \<and> number p)) \<and>
        (pre = [] \<or> (\<exists>k n. pre = k @ n \<and> k \<in> {''beta'', ''rc'', ''-pre''} \<and> number n)))"

text \<open>\<^verbatim>\<open>strings.Replace(s, "\n", " ", -1)\<close> and \<^verbatim>\<open>strings.TrimSpace\<close>.\<close>

definition replaceNewlines :: "string \<Rightarrow> string" where
  "replaceNewlines s = map (\<lambda>c. if c = CHR 0x0A then CHR 0x20 else c) s"

function trimLeft :: "string \<Rightarrow> string" where
  "trimLeft s = (if 0 < spaceLen s then trimLeft (drop (spaceLen s) s) else s)"
  by pat_completeness auto
termination
proof (relation "measure length")
  fix s :: string
  assume "0 < spaceLen s"
  moreover have "spaceLen s \<noteq> 0 \<Longrightarrow> s \<noteq> []"
    by (auto simp: spaceLen_def spaceEncodings_def split: option.splits)
  ultimately show "(drop (spaceLen s) s, s) \<in> measure length" by simp
qed simp

function trimRight :: "string \<Rightarrow> string" where
  "trimRight s = (if 0 < spaceLenR s then trimRight (take (length s - spaceLenR s) s) else s)"
  by pat_completeness auto
termination
proof (relation "measure length")
  fix s :: string
  assume "0 < spaceLenR s"
  moreover have "spaceLenR s \<noteq> 0 \<Longrightarrow> s \<noteq> []"
    by (auto simp: spaceLenR_def spaceEncodings_def split: option.splits)
  ultimately show "(take (length s - spaceLenR s) s, s) \<in> measure length" by simp
qed simp

declare trimLeft.simps [simp del] trimRight.simps [simp del]

definition TrimSpace :: "string \<Rightarrow> string" where
  "TrimSpace s = trimRight (trimLeft s)"

section \<open>Catalog filter (osvutil)\<close>

text \<open>
  \<^verbatim>\<open>packages.Module\<close> with the fields the program reads, and the OSV entry of
  \<^verbatim>\<open>golang.org/x/vuln/osv\<close>. Times are kept as their text.
\<close>

datatype module = Module (m_Path: string) (m_Version: string) (m_Replace: "module option")

record ecosystemSpecificImport =
  imp_Path :: string
  imp_GOOS :: "string list"
  imp_GOARCH :: "string list"
  imp_Symbols :: "string list"

record rangeEvent =
  ev_Introduced :: string
  ev_Fixed :: string

record affectsRange =
  rng_Type :: string
  rng_Events :: "rangeEvent list"

record affected =
  aff_PackageName :: string
  aff_Ecosystem :: string
  aff_Ranges :: "affectsRange list"
  aff_URL :: string
  aff_Imports :: "ecosystemSpecificImport list"

record entry =
  ent_ID :: string
  ent_Published :: string
  ent_Modified :: string
  ent_Withdrawn :: "string option"
  ent_Aliases :: "string list"
  ent_Details :: string
  ent_Affected :: "affected list"
  ent_References :: "(string \<times> string) list"

definition GoEcosystem :: string where
  "GoEcosystem = ''Go''"

fun effectiveModule :: "module \<Rightarrow> module" where
  "effectiveModule (Module p v None) = Module p v None"
| "effectiveModule (Module p v (Some r)) = effectiveModule r"

definition matchesPlatform :: "string \<Rightarrow> string \<Rightarrow> ecosystemSpecificImport \<Rightarrow> bool" where
  "matchesPlatform os arch e =
     (let matchesOS = (imp_GOOS e = [] \<or> os \<in> set (imp_GOOS e));
          matchesArch = (imp_GOARCH e = [] \<or> arch \<in> set (imp_GOARCH e))
      in matchesOS \<and> matchesArch)"

definition isStdPackage :: "string \<Rightarrow> bool" where
  "isStdPackage pkg =
     (if pkg = [] then False
      else CHR ''.'' \<notin> set (takeWhile (\<lambda>c. c \<noteq> CHR ''/'') pkg))"

text \<open>
  The environment of the filter: the values of \<^verbatim>\<open>lookupEnv("GOOS", runtime.GOOS)\<close> and
  \<^verbatim>\<open>lookupEnv("GOARCH", runtime.GOARCH)\<close>, and \<^verbatim>\<open>Ranges.AffectsSemver\<close> of the osv
  library, which is not part of this repository and is a parameter.
\<close>

record filterEnv =
  fe_goos :: string
  fe_goarch :: string
  fe_AffectsSemver :: "affectsRange list \<Rightarrow> string \<Rightarrow> bool"

definition moduleVersion :: "module \<Rightarrow> string" where
  "moduleVersion module =
     (case m_Replace module of None \<Rightarrow> m_Version module | Some r \<Rightarrow> m_Version r)"

text \<open>The inner loop of \<^verbatim>\<open>filterOSVEntries\<close> over the Affected records of one entry.\<close>

fun filterAffected :: "filterEnv \<Rightarrow> module \<Rightarrow> affected list \<Rightarrow> affected list" where
  "filterAffected env module [] = []"
| "filterAffected env module (a # rest) =
     (if aff_Ecosystem a \<noteq> GoEcosystem then filterAffected env module rest
      else if m_Path module = ''stdlib'' \<and> \<not> isStdPackage (aff_PackageName a)
        then filterAffected env module rest
      else if m_Path module \<noteq> ''stdlib'' \<and> \<not> prefix (m_Path module) (aff_PackageName a)
        then filterAffected env module rest
      else if moduleVersion module = [] then filterAffected env module rest
      else if \<not> fe_AffectsSemver env (aff_Ranges a) (moduleVersion module)
        then filterAffected env module rest
      else
        (let filteredImports = filter (matchesPlatform (fe_goos env) (fe_goarch env)) (aff_Imports a)
         in if aff_Imports a \<noteq> [] \<and> filteredImports = [] then filterAffected env module rest
            else a\<lparr>aff_Imports := filteredImports\<rparr> # filterAffected env module rest))"

fun filterOSVEntries :: "filterEnv \<Rightarrow> module \<Rightarrow> entry list \<Rightarrow> entry list" where
  "filterOSVEntries env module [] = []"
| "filterOSVEntries env module (v # vulns) =
     (let filteredAffected = filterAffected env module (ent_Affected v)
      in if filteredAffected = [] then filterOSVEntries env module vulns
         else v\<lparr>ent_Affected := filteredAffected\<rparr> # filterOSVEntries env module vulns)"

definition normalizeOSVEntries :: "module \<Rightarrow> entry list \<Rightarrow> entry list" where
  "normalizeOSVEntries module vulns =
     map (\<lambda>v. v\<lparr>ent_Details := TrimSpace (replaceNewlines (ent_Details v))\<rparr>) vulns"

definition modKey :: "module \<Rightarrow> string" where
  "modKey module =
     (let m = (case m_Replace module of None \<Rightarrow> module | Some r \<Rightarrow> r)
      in m_Path m @ ''@'' @ m_Version m)"

text \<open>
  The first loop of \<^verbatim>\<open>FetchOSVEntries\<close>, which fills \<^verbatim>\<open>mod2OSV\<close>. The database client and
  \<^verbatim>\<open>module.CheckPath\<close> are outside the repository and are parameters; a client error
  ends the loop with that error.
\<close>

record fetchEnv =
  fx_filter :: filterEnv
  fx_CheckPath :: "string \<Rightarrow> bool"
  fx_GetByModule :: "string \<Rightarrow> string + entry list"

fun fetchModules ::
  "fetchEnv \<Rightarrow> module list \<Rightarrow> (string \<times> entry list) list \<Rightarrow> string + (string \<times> entry list) list"
where
  "fetchModules env [] mod2OSV = Inr mod2OSV"
| "fetchModules env (md # mods) mod2OSV =
     (let m = effectiveModule md; modPath = m_Path m
      in if \<not> fx_CheckPath env modPath then fetchModules env mods mod2OSV
         else case fx_GetByModule env modPath of
           Inl err \<Rightarrow> Inl err
         | Inr vulns \<Rightarrow>
             (let vulns' = normalizeOSVEntries m (filterOSVEntries (fx_filter env) m vulns)
              in fetchModules env mods
                   (if vulns' \<noteq> [] then AList.update (modKey md) vulns' mod2OSV else mod2OSV)))"

section \<open>The analyzer (package analysis)\<close>

subsection \<open>Objects of the type checker\<close>

text \<open>
  A \<^verbatim>\<open>types.Object\<close> is one of the object kinds of \<^verbatim>\<open>go/types\<close>, modelled by what the
  analyzer reads from it: \<^verbatim>\<open>Pkg().Path()\<close> (\<open>None\<close> when \<^verbatim>\<open>Pkg()\<close> is nil, as for the
  objects of the universe scope), \<^verbatim>\<open>Name()\<close>, \<^verbatim>\<open>Exported()\<close> and \<^verbatim>\<open>Pos()\<close>. A \<^verbatim>\<open>*types.Func\<close>
  also carries \<^verbatim>\<open>dbTypeFormat\<close> of its receiver type when it is a method. A
  \<^verbatim>\<open>*types.PkgName\<close> always belongs to the importing package and carries the path of the
  imported one. Two objects are the same object when all of this agrees.
\<close>

record objInfo =
  oPkg :: "string option"
  oName :: string
  oExported :: bool
  oPos :: nat

record pkgNameInfo =
  pnPkg :: string
  pnName :: string
  pnExported :: bool
  pnPos :: nat
  pnImported :: string

datatype object =
    Func objInfo "string option"
  | Var objInfo
  | Const objInfo
  | TypeName objInfo
  | PkgName pkgNameInfo
  | Label objInfo
  | Builtin objInfo
  | NilObj objInfo

fun objPkg :: "object \<Rightarrow> string option" where
  "objPkg (Func i r) = oPkg i"
| "objPkg (Var i) = oPkg i"
| "objPkg (Const i) = oPkg i"
| "objPkg (TypeName i) = oPkg i"
| "objPkg (PkgName p) = Some (pnPkg p)"
| "objPkg (Label i) = oPkg i"
| "objPkg (Builtin i) = oPkg i"
| "objPkg (NilObj i) = oPkg i"

fun objName :: "object \<Rightarrow> string" where
  "objName (Func i r) = oName i"
| "objName (Var i) = oName i"
| "objName (Const i) = oName i"
| "objName (TypeName i) = oName i"
| "objName (PkgName p) = pnName p"
| "objName (Label i) = oName i"
| "objName (Builtin i) = oName i"
| "objName (NilObj i) = oName i"

fun objExported :: "object \<Rightarrow> bool" where
  "objExported (Func i r) = oExported i"
| "objExported (Var i) = oExported i"
| "objExported (Const i) = oExported i"
| "objExported (TypeName i) = oExported i"
| "objExported (PkgName p) = pnExported p"
| "objExported (Label i) = oExported i"
| "objExported (Builtin i) = oExported i"
| "objExported (NilObj i) = oExported i"

fun objPos :: "object \<Rightarrow> nat" where
  "objPos (Func i r) = oPos i"
| "objPos (Var i) = oPos i"
| "objPos (Const i) = oPos i"
| "objPos (TypeName i) = oPos i"
| "objPos (PkgName p) = pnPos p"
| "objPos (Label i) = oPos i"
| "objPos (Builtin i) = oPos i"
| "objPos (NilObj i) = oPos i"

text \<open>
  \<^verbatim>\<open>Object.Id()\<close> of \<^verbatim>\<open>go/types\<close>: the bare name of an exported object, else the name
  qualified by the package path (\<^verbatim>\<open>_\<close> when there is no package or its path is empty).
\<close>

definition Id :: "object \<Rightarrow> string" where
  "Id obj =
     (if objExported obj then objName obj
      else (case objPkg obj of
              None \<Rightarrow> ''_''
            | Some p \<Rightarrow> if p = [] then ''_'' else p) @ ''.'' @ objName obj)"

definition isFunc :: "object \<Rightarrow> bool" where
  "isFunc obj = (case obj of Func i r \<Rightarrow> True | _ \<Rightarrow> False)"

subsection \<open>The catalog\<close>

record catalog =
  PkgToVulns :: "(string \<times> entry list) list"
  Err :: "string option"

text \<open>What opening and decoding the file named by \<^verbatim>\<open>-vulns-json\<close> gives.\<close>

datatype fileOutcome =
    OpenFailed string
  | DecodeFailed string
  | Decoded "(string \<times> entry list) list"

definition readFile :: "catalog \<Rightarrow> fileOutcome \<Rightarrow> catalog" where
  "readFile c file =
     (case file of
        OpenFailed err \<Rightarrow> c\<lparr>Err := Some err\<rparr>
      | DecodeFailed err \<Rightarrow> c\<lparr>Err := Some err\<rparr>
      | Decoded pkg2vulns \<Rightarrow> c\<lparr>PkgToVulns := pkg2vulns, Err := None\<rparr>)"

text \<open>
  \<^verbatim>\<open>Refresh\<close>, which \<^verbatim>\<open>once.Do\<close> applies to the zero catalog the first time \<^verbatim>\<open>run\<close> is
  called. \<open>fs\<close> maps a file name to what reading it gives.
\<close>

definition Refresh :: "string \<Rightarrow> (string \<Rightarrow> fileOutcome) \<Rightarrow> catalog \<Rightarrow> catalog" where
  "Refresh vulnsJSONFile fs c =
     (if vulnsJSONFile \<noteq> [] then readFile c (fs vulnsJSONFile)
      else c\<lparr>Err := Some ''catalog not initialized''\<rparr>)"

definition zeroCatalog :: catalog where
  "zeroCatalog = \<lparr>PkgToVulns = [], Err = None\<rparr>"

definition affectedSymbols :: "string \<Rightarrow> entry \<Rightarrow> string list" where
  "affectedSymbols pkg v =
     concat (map (\<lambda>a. concat (map (\<lambda>p. if imp_Path p = pkg then imp_Symbols p else [])
                                  (aff_Imports a)))
                 (ent_Affected v))"

definition dbFuncName :: "objInfo \<Rightarrow> string option \<Rightarrow> string" where
  "dbFuncName i r = (case r of None \<Rightarrow> oName i | Some t \<Rightarrow> t @ ''.'' @ oName i)"

definition lookupVulns :: "(string \<times> entry list) list \<Rightarrow> string \<Rightarrow> entry list" where
  "lookupVulns m k = (case map_of m k of None \<Rightarrow> [] | Some vs \<Rightarrow> vs)"

text \<open>
  The body of the loop of \<^verbatim>\<open>isDirectlyVulnerable\<close> for one entry. The \<^verbatim>\<open>continue\<close> after a
  matching symbol continues the loop over the symbols, so the id is added once for each
  occurrence of the name among them.
\<close>

definition entryHits :: "string \<Rightarrow> string \<Rightarrow> entry \<Rightarrow> string list" where
  "entryHits pkg fnName v =
     (let syms = affectedSymbols pkg v
      in if syms = [] then [ent_ID v]
         else concat (map (\<lambda>s. if s = fnName then [ent_ID v] else []) syms))"

fun isDirectlyVulnerable :: "catalog \<Rightarrow> object \<Rightarrow> string list" where
  "isDirectlyVulnerable c (Func i r) =
     (case oPkg i of
        None \<Rightarrow> []
      | Some pkg \<Rightarrow>
          (let vulns = lookupVulns (PkgToVulns c) pkg
           in if vulns = [] then []
              else concat (map (entryHits pkg (dbFuncName i r)) vulns)))"
| "isDirectlyVulnerable c obj = []"

subsection \<open>Formatting\<close>

fun objectString0 :: "object \<Rightarrow> string" where
  "objectString0 (PkgName p) = pnPkg p"
| "objectString0 (Func i r) =
     (case oPkg i of None \<Rightarrow> [] | Some p \<Rightarrow> p @ ''.'') @ dbFuncName i r"
| "objectString0 obj =
     (case objPkg obj of None \<Rightarrow> [] | Some p \<Rightarrow> p @ ''.'') @ objName obj"

text \<open>\<open>fset p\<close> is \<^verbatim>\<open>fset.Position(p).String()\<close>.\<close>

definition objectString :: "object \<Rightarrow> (nat \<Rightarrow> string) \<Rightarrow> string" where
  "objectString obj fset = objectString0 obj @ '' '' @ fset (objPos obj)"

subsection \<open>The pass and the reference graph\<close>

text \<open>
  A path map is a Go \<^verbatim>\<open>map[string][]string\<close>, kept as an association list with one pair
  for each key; the order of the list is the order in which a \<^verbatim>\<open>range\<close> loop visits the
  map. A nil map and an empty map are both \<open>[]\<close>: the program only takes their length.
\<close>

type_synonym pathMap = "(string \<times> string list) list"

text \<open>
  What \<^verbatim>\<open>run\<close> reads from the \<^verbatim>\<open>analysis.Pass\<close>: the file set, and the facts of the
  packages analyzed before (\<^verbatim>\<open>ImportObjectFact\<close>, and \<^verbatim>\<open>ImportPackageFact\<close> by the path of
  the package).
\<close>

record pass =
  Fset :: "nat \<Rightarrow> string"
  ObjectFact :: "object \<Rightarrow> pathMap option"
  PackageFact :: "string \<Rightarrow> pathMap option"

text \<open>
  The reference graph that the walk over the typed syntax leaves in \<^verbatim>\<open>refs\<close>, \<^verbatim>\<open>methods\<close>
  and \<^verbatim>\<open>imports\<close>. The three are Go maps; the order of each list is the order in which a
  \<^verbatim>\<open>range\<close> loop over the map visits it, which the Go runtime chooses anew for each loop.
  The set of a bucket is kept as the list of its elements in that order too.
\<close>

record graph =
  g_refs :: "(object \<times> object list) list"
  g_methods :: "(object \<times> object list) list"
  g_imports :: "pkgNameInfo list"

text \<open>
  \<^verbatim>\<open>succs\<close>. \<^verbatim>\<open>sort.Slice\<close> by \<^const>\<open>Id\<close> is an insertion sort here; the two agree whenever
  the objects of the bucket have different ids.
\<close>

definition succs :: "graph \<Rightarrow> object \<Rightarrow> object list" where
  "succs g obj =
     (case map_of (g_refs g) obj of None \<Rightarrow> [] | Some bucket \<Rightarrow> sort_key Id bucket)
     @ (case obj of
          TypeName i \<Rightarrow> (case map_of (g_methods g) obj of None \<Rightarrow> [] | Some ms \<Rightarrow> ms)
        | _ \<Rightarrow> [])"

subsection \<open>The path query\<close>

text \<open>The loop over \<^verbatim>\<open>vulns\<close> for an object that is itself vulnerable; \<open>o0\<close> is \<^verbatim>\<open>o[0]\<close>.\<close>

definition directPaths :: "string \<Rightarrow> string list \<Rightarrow> pathMap" where
  "directPaths o0 vulns =
     fold (\<lambda>v path. AList.update (v @ '':'' @ CutBefore (CHR '' '') o0) [o0] path) vulns []"

text \<open>
  The loops \<^verbatim>\<open>for vuln, prev := range ...\<close> over the paths of a fact or of a successor:
  each is stored under its key with \<open>ostr\<close> (the source's \<^verbatim>\<open>o\<close>) in front, unless it starts
  with it already.
\<close>

definition adoptPaths :: "string \<Rightarrow> pathMap \<Rightarrow> pathMap \<Rightarrow> pathMap" where
  "adoptPaths ostr src path =
     fold (\<lambda>(vuln, prev) path.
             AList.update vuln (if prev \<noteq> [] \<and> hd prev = ostr then prev else ostr # prev) path)
          src path"

text \<open>
  \<^verbatim>\<open>memo\<close>: no entry for an object not yet entered, \<open>Some []\<close> for the nil entry that marks
  an object grey, \<open>Some path\<close> for a stored path map.
\<close>

type_synonym memo = "object \<Rightarrow> pathMap option"

text \<open>The loop over the successors, for any function \<open>f\<close> in the place of the recursive call.\<close>

fun overSuccs ::
  "(object \<Rightarrow> memo \<Rightarrow> (pathMap \<times> memo) option) \<Rightarrow> string \<Rightarrow> object list \<Rightarrow> pathMap \<Rightarrow> memo
     \<Rightarrow> (pathMap \<times> memo) option"
where
  "overSuccs f ostr [] path mem = Some (path, mem)"
| "overSuccs f ostr (succ # rest) path mem =
     (case f succ mem of
        None \<Rightarrow> None
      | Some (path0, mem') \<Rightarrow>
          overSuccs f ostr rest (if path0 \<noteq> [] then adoptPaths ostr path0 path else path) mem')"

text \<open>The end of \<^verbatim>\<open>findPath\<close>: the path map is stored only when it is not empty.\<close>

definition storePath :: "object \<Rightarrow> pathMap \<Rightarrow> memo \<Rightarrow> pathMap \<times> memo" where
  "storePath obj path mem = (path, if path \<noteq> [] then mem(obj \<mapsto> path) else mem)"

text \<open>
  \<^verbatim>\<open>findPath\<close>, with the memo passed in and out. The first argument bounds the depth of
  the recursion; \<open>None\<close> says that the bound was reached.
\<close>

fun findPath :: "nat \<Rightarrow> catalog \<Rightarrow> pass \<Rightarrow> graph \<Rightarrow> object \<Rightarrow> memo \<Rightarrow> (pathMap \<times> memo) option" where
  "findPath 0 c ps g obj mem = None"
| "findPath (Suc n) c ps g obj mem =
     (case mem obj of
        Some path \<Rightarrow> Some (path, mem)
      | None \<Rightarrow>
          (let mem1 = mem(obj \<mapsto> []);
               vulns = isDirectlyVulnerable c obj
           in if vulns \<noteq> []
              then Some (storePath obj (directPaths (objectString obj (Fset ps)) vulns) mem1)
              else case ObjectFact ps obj of
                Some vfact \<Rightarrow>
                  Some (storePath obj (adoptPaths (objectString obj (Fset ps)) vfact []) mem1)
              | None \<Rightarrow>
                  (case overSuccs (findPath n c ps g) (objectString obj (Fset ps))
                          (succs g obj) [] mem1 of
                     None \<Rightarrow> None
                   | Some (path, mem2) \<Rightarrow> Some (storePath obj path mem2))))"

subsection \<open>run\<close>

record diagnostic =
  Pos :: nat
  End :: nat
  Category :: string
  Message :: string

text \<open>What one call of \<^verbatim>\<open>run\<close> reports and exports.\<close>

record analysisResult =
  Diagnostics :: "diagnostic list"
  ObjectFactsOut :: "(object \<times> pathMap) list"
  PackageFactOut :: "pathMap option"

definition report :: "nat \<Rightarrow> string \<Rightarrow> string list \<Rightarrow> diagnostic" where
  "report pos vuln p =
     \<lparr>Pos = pos, End = 0, Category = vuln,
      Message = CutBefore (CHR '':'') vuln @ ''|'' @ Join p [CHR 0x09]\<rparr>"

text \<open>The loop over \<^verbatim>\<open>imports\<close>: the diagnostics it reports and \<^verbatim>\<open>packageFactPath\<close>.\<close>

definition importFact :: "string \<Rightarrow> nat \<Rightarrow> diagnostic list \<times> pathMap \<Rightarrow> string \<times> string list
    \<Rightarrow> diagnostic list \<times> pathMap" where
  "importFact ostr pos st kv =
     (case (st, kv) of ((diags, packageFactPath), (vuln, p0)) \<Rightarrow>
        (let p = ostr # p0
         in (diags @ [report pos vuln p],
             (case map_of packageFactPath vuln of
                None \<Rightarrow> AList.update vuln p packageFactPath
              | Some existing \<Rightarrow>
                  if length existing > length p then AList.update vuln p packageFactPath
                  else packageFactPath))))"

fun overImports :: "pass \<Rightarrow> pkgNameInfo list \<Rightarrow> diagnostic list \<times> pathMap \<Rightarrow> diagnostic list \<times> pathMap" where
  "overImports ps [] st = st"
| "overImports ps (member # rest) st =
     (case PackageFact ps (pnImported member) of
        None \<Rightarrow> overImports ps rest st
      | Some vfact \<Rightarrow>
          overImports ps rest
            (fold (\<lambda>kv st. importFact (objectString (PkgName member) (Fset ps)) (pnPos member) st kv)
                  vfact st))"

text \<open>The loop over the members (the keys of \<^verbatim>\<open>refs\<close>).\<close>

record runState =
  rs_memo :: memo
  rs_findings :: "string list"
  rs_diags :: "diagnostic list"
  rs_objectFacts :: "(object \<times> pathMap) list"
  rs_packageFactPath :: pathMap

definition reportPaths :: "object \<Rightarrow> pathMap \<Rightarrow> diagnostic list" where
  "reportPaths member path =
     concat (map (\<lambda>(vuln, p). if p = [] then [] else [report (objPos member) vuln p]) path)"

definition foundKeys :: "pathMap \<Rightarrow> string list" where
  "foundKeys path = concat (map (\<lambda>(vuln, p). if p = [] then [] else [vuln]) path)"

definition initPaths :: "pathMap \<Rightarrow> pathMap \<Rightarrow> pathMap" where
  "initPaths path packageFactPath =
     fold (\<lambda>(vuln, trace) pfp.
             case map_of pfp vuln of None \<Rightarrow> AList.update vuln trace pfp | Some _ \<Rightarrow> pfp)
          path packageFactPath"

definition memberStep :: "object \<Rightarrow> pathMap \<Rightarrow> memo \<Rightarrow> runState \<Rightarrow> runState" where
  "memberStep member path mem st =
     (if path = [] then st\<lparr>rs_memo := mem\<rparr>
      else st\<lparr>rs_memo := mem,
              rs_findings := rs_findings st @ foundKeys path,
              rs_diags := rs_diags st @ reportPaths member path,
              rs_objectFacts :=
                (if objExported member then rs_objectFacts st @ [(member, path)]
                 else rs_objectFacts st),
              rs_packageFactPath :=
                (if objName member = ''init'' then initPaths path (rs_packageFactPath st)
                 else rs_packageFactPath st)\<rparr>)"

fun overMembers :: "nat \<Rightarrow> catalog \<Rightarrow> pass \<Rightarrow> graph \<Rightarrow> object list \<Rightarrow> runState \<Rightarrow> runState option" where
  "overMembers n c ps g [] st = Some st"
| "overMembers n c ps g (member # rest) st =
     (case findPath n c ps g member (rs_memo st) of
        None \<Rightarrow> None
      | Some (path, mem) \<Rightarrow> overMembers n c ps g rest (memberStep member path mem st))"

text \<open>
  \<^verbatim>\<open>run\<close> after \<^verbatim>\<open>once.Do(catalog.Refresh)\<close>, for the catalog that \<^verbatim>\<open>Refresh\<close> left. \<open>Inl\<close> is
  the error that \<^verbatim>\<open>run\<close> returns. The first argument bounds the depth of \<^const>\<open>findPath\<close>.
\<close>

definition run :: "nat \<Rightarrow> catalog \<Rightarrow> pass \<Rightarrow> graph \<Rightarrow> (string + analysisResult) option" where
  "run n c ps g =
     (case Err c of
        Some err \<Rightarrow> Some (Inl err)
      | None \<Rightarrow>
          if PkgToVulns c = []
          then Some (Inr \<lparr>Diagnostics = [], ObjectFactsOut = [], PackageFactOut = None\<rparr>)
          else
            (case overImports ps (g_imports g) ([], []) of (diags0, pfp0) \<Rightarrow>
               (case overMembers n c ps g (map fst (g_refs g))
                       \<lparr>rs_memo = Map.empty, rs_findings = [], rs_diags = diags0,
                        rs_objectFacts = [], rs_packageFactPath = pfp0\<rparr> of
                  None \<Rightarrow> None
                | Some st \<Rightarrow>
                    Some (Inr \<lparr>Diagnostics = rs_diags st,
                               ObjectFactsOut = rs_objectFacts st,
                               PackageFactOut =
                                 (if rs_packageFactPath st \<noteq> [] then Some (rs_packageFactPath st)
                                  else None)\<rparr>))))"

text \<open>The objects of the graph, which bound the depth of the path query.\<close>

definition nodes :: "graph \<Rightarrow> object list" where
  "nodes g = map fst (g_refs g) @ concat (map snd (g_refs g))
             @ map fst (g_methods g) @ concat (map snd (g_methods g))"

section \<open>Example inputs\<close>

text \<open>
  The catalog of the repository's test: entry GO02 on module \<^verbatim>\<open>b.com/m\<close>, package
  \<^verbatim>\<open>b.com/m/vuln\<close>, symbol \<^verbatim>\<open>Vuln\<close>, fixed in 1.1.0; beside its Go record the entry
  gets a record of another ecosystem here.
\<close>

definition exImport :: ecosystemSpecificImport where
  "exImport = \<lparr>imp_Path = ''b.com/m/vuln'', imp_GOOS = [], imp_GOARCH = [],
               imp_Symbols = [''Vuln'']\<rparr>"

definition exAffected :: affected where
  "exAffected =
     \<lparr>aff_PackageName = ''b.com/m/vuln'', aff_Ecosystem = ''Go'',
      aff_Ranges = [\<lparr>rng_Type = ''SEMVER'',
                     rng_Events = [\<lparr>ev_Introduced = ''0'', ev_Fixed = ''1.1.0''\<rparr>]\<rparr>],
      aff_URL = [], aff_Imports = [exImport]\<rparr>"

definition exEntry :: entry where
  "exEntry =
     \<lparr>ent_ID = ''GO02'', ent_Published = ''2021-04-14T20:04:52Z'',
      ent_Modified = ''2021-04-14T20:04:52Z'', ent_Withdrawn = None, ent_Aliases = [],
      ent_Details = [CHR ''S'', CHR ''o'', CHR ''m'', CHR ''e'', CHR 0x0A],
      ent_Affected = [exAffected\<lparr>aff_Ecosystem := ''npm''\<rparr>, exAffected],
      ent_References = []\<rparr>"

text \<open>
  In the place of \<^verbatim>\<open>AffectsSemver\<close> for the range of the example: of the versions used
  below, \<^verbatim>\<open>v1.0.1\<close> lies before the fix and \<^verbatim>\<open>v1.1.0\<close> does not.
\<close>

definition exFilterEnv :: filterEnv where
  "exFilterEnv = \<lparr>fe_goos = ''linux'', fe_goarch = ''amd64'',
                  fe_AffectsSemver = (\<lambda>ranges v. v = ''v1.0.1'')\<rparr>"

definition exFetchEnv :: fetchEnv where
  "exFetchEnv = \<lparr>fx_filter = exFilterEnv, fx_CheckPath = (\<lambda>p. True),
                 fx_GetByModule = (\<lambda>p. if p = ''b.com/m'' then Inr [exEntry] else Inr [])\<rparr>"

text \<open>
  A package \<^verbatim>\<open>p\<close> whose functions \<^verbatim>\<open>A\<close> and \<^verbatim>\<open>B\<close> call each other, \<^verbatim>\<open>B\<close> calling
  \<^verbatim>\<open>b.com/m/vuln.Vuln\<close> as well; and a variable of the vulnerable package with the name
  of the vulnerable function.
\<close>

definition exA :: object where
  "exA = Func \<lparr>oPkg = Some ''p'', oName = ''A'', oExported = True, oPos = 1\<rparr> None"

definition exB :: object where
  "exB = Func \<lparr>oPkg = Some ''p'', oName = ''B'', oExported = True, oPos = 2\<rparr> None"

definition exVuln :: object where
  "exVuln = Func \<lparr>oPkg = Some ''b.com/m/vuln'', oName = ''Vuln'', oExported = True, oPos = 3\<rparr> None"

definition exVar :: object where
  "exVar = Var \<lparr>oPkg = Some ''b.com/m/vuln'', oName = ''Vuln'', oExported = True, oPos = 3\<rparr>"

definition exCatalog :: catalog where
  "exCatalog = \<lparr>PkgToVulns = [(''b.com/m/vuln'', [exEntry\<lparr>ent_Affected := [exAffected]\<rparr>])],
                Err = None\<rparr>"

definition exPass :: pass where
  "exPass = \<lparr>Fset = (\<lambda>p. if p = 1 then ''p.go:1'' else if p = 2 then ''p.go:2'' else ''v.go:3''),
             ObjectFact = (\<lambda>obj. None), PackageFact = (\<lambda>pkg. None)\<rparr>"

text \<open>The same reference graph twice; a loop over \<^verbatim>\<open>refs\<close> visits \<^verbatim>\<open>A\<close> first in the one
  and \<^verbatim>\<open>B\<close> first in the other.\<close>

definition exGraphAB :: graph where
  "exGraphAB = \<lparr>g_refs = [(exA, [exB]), (exB, [exA, exVuln])], g_methods = [], g_imports = []\<rparr>"

definition exGraphBA :: graph where
  "exGraphBA = \<lparr>g_refs = [(exB, [exA, exVuln]), (exA, [exB])], g_methods = [], g_imports = []\<rparr>"

text \<open>The cycle alone: \<^verbatim>\<open>A\<close> and \<^verbatim>\<open>B\<close> call each other and nothing else.\<close>

definition exCycle :: graph where
  "exCycle = \<lparr>g_refs = [(exA, [exB]), (exB, [exA])], g_methods = [], g_imports = []\<rparr>"

section \<open>Properties of the version normalizer\<close>

lemma span_digits:
  assumes "list_all isDigit ds" and "r = [] \<or> \<not> isDigit (hd r)"
  shows "takeWhile isDigit (ds @ r) = ds" and "dropWhile isDigit (ds @ r) = r"
proof -
  have a: "\<forall>x\<in>set ds. isDigit x" using assms(1) by (simp add: list_all_iff)
  have b: "takeWhile isDigit r = []" using assms(2) by (cases r) auto
  have c: "dropWhile isDigit r = r" using assms(2) by (cases r) auto
  show "takeWhile isDigit (ds @ r) = ds" using a b by (simp add: takeWhile_append2)
  show "dropWhile isDigit (ds @ r) = r" using a c by (simp add: dropWhile_append2)
qed

lemma CutPrefix_Some: "CutPrefix p s = Some r \<longleftrightarrow> s = p @ r"
  by (auto simp: CutPrefix_def prefix_def)

lemma matchPre_Some:
  "matchPre r = Some (m3, m4, m5) \<Longrightarrow>
     m3 = r \<and> (r = [] \<and> m4 = [] \<and> m5 = [] \<or>
       r = m4 @ m5 \<and> m4 \<in> {''beta'', ''rc'', ''-pre''} \<and> number m5)"
  by (auto simp: matchPre_def number_def Let_def prefix_def split: if_splits option.splits)

lemma matchPre_pre:
  assumes "k \<in> {''beta'', ''rc'', ''-pre''}" and "number n"
  shows "matchPre (k @ n) = Some (k @ n, k, n)"
proof -
  have n: "n \<noteq> []" "list_all isDigit n" using assms(2) by (simp_all add: number_def)
  consider "k = ''beta''" | "k = ''rc''" | "k = ''-pre''" using assms(1) by blast
  then show ?thesis
  proof cases
    case 1
    then show ?thesis using n by (simp add: matchPre_def)
  next
    case 2
    then show ?thesis using n by (simp add: matchPre_def)
  next
    case 3
    then show ?thesis using n by (simp add: matchPre_def)
  qed
qed

lemma tagRegexpFind_complete:
  assumes "goTagGrammar tag" shows "tagRegexpFind tag \<noteq> None"
proof -
  from assms obtain major minor patch pre where
    tag: "tag = ''go'' @ major @ ''.'' @ minor @ patch @ pre" and
    mj: "number major" and mn: "number minor" and
    pt: "patch = [] \<or> (\<exists>p. patch = ''.'' @ p \<and> number p)" and
    pr: "pre = [] \<or> (\<exists>k n. pre = k @ n \<and> k \<in> {''beta'', ''rc'', ''-pre''} \<and> number n)"
    unfolding goTagGrammar_def by blast
  have nd: "\<not> isDigit (CHR ''.'')" by (simp add: isDigit_def)
  have prehd: "pre = [] \<or> \<not> isDigit (hd pre) \<and> hd pre \<noteq> CHR ''.''"
  proof (cases "pre = []")
    case True
    then show ?thesis by simp
  next
    case False
    then obtain k n where kn: "pre = k @ n" "k \<in> {''beta'', ''rc'', ''-pre''}"
      using pr by blast
    from kn(2) have "k = ''beta'' \<or> k = ''rc'' \<or> k = ''-pre''" by blast
    then have "hd pre \<in> {CHR ''b'', CHR ''r'', CHR ''-''}" using kn(1) by fastforce
    then show ?thesis by (auto simp: isDigit_def)
  qed
  have prehd1: "pre = [] \<or> \<not> isDigit (hd pre)" using prehd by blast
  have premp: "matchPre pre \<noteq> None"
  proof (cases "pre = []")
    case True
    then show ?thesis by (simp add: matchPre_def)
  next
    case False
    then obtain k n where "pre = k @ n" "k \<in> {''beta'', ''rc'', ''-pre''}" "number n"
      using pr by blast
    then show ?thesis using matchPre_pre[of k n] by simp
  qed
  then obtain m3 m4 m5 where mp: "matchPre pre = Some (m3, m4, m5)"
    by (cases "matchPre pre") auto
  have c0: "CutPrefix ''go'' tag = Some (major @ CHR ''.'' # minor @ patch @ pre)"
    using tag by (simp add: CutPrefix_Some)
  have t1: "takeWhile isDigit (major @ CHR ''.'' # minor @ patch @ pre) = major"
    and d1: "dropWhile isDigit (major @ CHR ''.'' # minor @ patch @ pre)
               = CHR ''.'' # minor @ patch @ pre"
    using span_digits[of major "CHR ''.'' # minor @ patch @ pre"] mj nd
    by (simp_all add: number_def)
  have hd2: "patch @ pre = [] \<or> \<not> isDigit (hd (patch @ pre))"
  proof (cases "patch = []")
    case True
    then show ?thesis using prehd1 by simp
  next
    case False
    then obtain p where "patch = ''.'' @ p" using pt by blast
    then show ?thesis using nd by simp
  qed
  have t2: "takeWhile isDigit (minor @ patch @ pre) = minor"
    and d2: "dropWhile isDigit (minor @ patch @ pre) = patch @ pre"
    using span_digits[of minor "patch @ pre"] mn hd2 by (simp_all add: number_def)
  have pp: "matchPatch (patch @ pre) = (patch, pre)"
  proof (cases "patch = []")
    case True
    show ?thesis
    proof (cases pre)
      case Nil
      then show ?thesis using True by (simp add: matchPatch_def)
    next
      case (Cons c cs)
      then have "c \<noteq> CHR ''.''" using prehd by simp
      then show ?thesis using True Cons by (simp add: matchPatch_def)
    qed
  next
    case False
    then obtain p where p: "patch = CHR ''.'' # p" "number p" using pt by auto
    have "takeWhile isDigit (p @ pre) = p" and "dropWhile isDigit (p @ pre) = pre"
      using span_digits[of p pre] p(2) prehd1 by (simp_all add: number_def)
    moreover have "p \<noteq> []" using p(2) by (simp add: number_def)
    ultimately show ?thesis using p(1) by (simp add: matchPatch_def)
  qed
  have mj': "major \<noteq> []" and mn': "minor \<noteq> []" using mj mn by (simp_all add: number_def)
  have "tagRegexpFind tag = Some (major @ ''.'' @ minor, patch, m3, m4, m5)"
    unfolding tagRegexpFind_def c0
    by (simp add: Let_def t1 d1 t2 d2 pp mp mj' mn' del: takeWhile_append dropWhile_append)
  then show ?thesis by simp
qed

lemma number_takeWhile: "takeWhile isDigit s \<noteq> [] \<Longrightarrow> number (takeWhile isDigit s)"
  by (auto simp: number_def list_all_iff dest: set_takeWhileD)

lemma matchPatch_split:
  "matchPatch r3 = (patch, r4) \<Longrightarrow>
     r3 = patch @ r4 \<and> (patch = [] \<or> (\<exists>p. patch = ''.'' @ p \<and> number p))"
  by (cases r3) (auto simp: matchPatch_def number_takeWhile split: if_splits)

lemma tagRegexpFind_sound:
  assumes "tagRegexpFind tag = Some m" shows "goTagGrammar tag"
proof -
  from assms obtain r0 where c0: "CutPrefix ''go'' tag = Some r0"
    by (cases "CutPrefix ''go'' tag") (simp_all add: tagRegexpFind_def)
  then have r0: "tag = ''go'' @ r0" by (simp add: CutPrefix_Some)
  define major where "major = takeWhile isDigit r0"
  define r1 where "r1 = dropWhile isDigit r0"
  have s1: "(if major = [] then None
             else case r1 of
               [] \<Rightarrow> None
             | c # r2 \<Rightarrow>
                 if c \<noteq> CHR ''.'' then None
                 else
                   (let minor = takeWhile isDigit r2; r3 = dropWhile isDigit r2
                    in if minor = [] then None
                       else
                         (let (patch, r4) = matchPatch r3
                          in case matchPre r4 of
                               None \<Rightarrow> None
                             | Some (m3, m4, m5) \<Rightarrow>
                                 Some (major @ ''.'' @ minor, patch, m3, m4, m5)))) = Some m"
    using assms unfolding tagRegexpFind_def c0 major_def r1_def by (simp add: Let_def)
  then have mj: "major \<noteq> []" by (cases "major = []") simp_all
  from s1 mj obtain c r2 where r1c: "r1 = c # r2" by (cases r1) simp_all
  from s1 mj r1c have cdot: "c = CHR ''.''" by (cases "c = CHR ''.''") simp_all
  define minor where "minor = takeWhile isDigit r2"
  define r3 where "r3 = dropWhile isDigit r2"
  have s2: "(if minor = [] then None
             else
               (let (patch, r4) = matchPatch r3
                in case matchPre r4 of
                     None \<Rightarrow> None
                   | Some (m3, m4, m5) \<Rightarrow>
                       Some (major @ ''.'' @ minor, patch, m3, m4, m5))) = Some m"
    using s1 mj r1c cdot unfolding minor_def r3_def by (simp add: Let_def)
  then have mn: "minor \<noteq> []" by (cases "minor = []") simp_all
  obtain patch r4 where pp: "matchPatch r3 = (patch, r4)" by (cases "matchPatch r3") auto
  from s2 mn pp obtain m3 m4 m5 where mp: "matchPre r4 = Some (m3, m4, m5)"
    by (cases "matchPre r4") auto
  have tag: "tag = ''go'' @ major @ ''.'' @ minor @ patch @ r4"
  proof -
    have "r0 = major @ r1" by (simp add: major_def r1_def)
    moreover have "r2 = minor @ r3" by (simp add: minor_def r3_def)
    moreover have "r3 = patch @ r4" using matchPatch_split[OF pp] by simp
    ultimately show ?thesis using r0 r1c cdot by simp
  qed
  have pat: "patch = [] \<or> (\<exists>p. patch = ''.'' @ p \<and> number p)"
    using matchPatch_split[OF pp] by simp
  have pre: "r4 = [] \<or> (\<exists>k n. r4 = k @ n \<and> k \<in> {''beta'', ''rc'', ''-pre''} \<and> number n)"
    using matchPre_Some[OF mp] by blast
  have nmj: "number major" using mj number_takeWhile[of r0] by (simp add: major_def)
  have nmn: "number minor" using mn number_takeWhile[of r2] by (simp add: minor_def)
  show ?thesis
    unfolding goTagGrammar_def
    by (rule exI[of _ major], rule exI[of _ minor], rule exI[of _ patch], rule exI[of _ r4])
       (intro conjI tag nmj nmn pat pre)
qed

lemma tagRegexpFind_grammar: "goTagGrammar tag \<longleftrightarrow> tagRegexpFind tag \<noteq> None"
  using tagRegexpFind_complete tagRegexpFind_sound by blast

lemma fieldsFrom_no_space:
  "(\<forall>n. spaceLen (drop n s) = 0) \<Longrightarrow> cur @ s \<noteq> [] \<Longrightarrow> fieldsFrom cur s = [cur @ s]"
proof (induction s arbitrary: cur)
  case Nil
  then show ?case by simp
next
  case (Cons c cs)
  have h0: "spaceLen (c # cs) = 0" using Cons.prems(1)[rule_format, of 0] by simp
  have hs: "\<forall>n. spaceLen (drop n cs) = 0"
  proof
    fix n show "spaceLen (drop n cs) = 0" using Cons.prems(1)[rule_format, of "Suc n"] by simp
  qed
  show ?case using h0 Cons.IH[OF hs, of "cur @ [c]"] by simp
qed

lemma GoTagToSemver_field:
  assumes "Fields tag = f # fs"
  shows "\<exists>v. GoTagToSemver tag = Inr v"
    and "f \<noteq> ''go1'' \<Longrightarrow> \<not> goTagGrammar f \<Longrightarrow> GoTagToSemver tag = Inr []"
proof -
  show "\<exists>v. GoTagToSemver tag = Inr v"
    using assms by (auto simp: GoTagToSemver_def Let_def split: option.splits)
  assume "f \<noteq> ''go1''" and "\<not> goTagGrammar f"
  moreover from this have "tagRegexpFind f = None" using tagRegexpFind_grammar[of f] by blast
  ultimately show "GoTagToSemver tag = Inr []"
    using assms by (simp add: GoTagToSemver_def)
qed

text \<open>A tag of white space only has no field, and the unchecked index panics.\<close>

lemma GoTagToSemver_blank_panics: "GoTagToSemver '' '' = Inl IndexOutOfRange"
  by code_simp

text \<open>
  C5, as the code has it. \<^verbatim>\<open>GoTagToSemver\<close> maps \<^verbatim>\<open>go1\<close> to \<^verbatim>\<open>v1.0.0\<close>, \<^verbatim>\<open>go1.0\<close> to the
  empty string, \<^verbatim>\<open>go1.21rc2\<close> to \<^verbatim>\<open>v1.21.0-rc.2\<close>, \<^verbatim>\<open>go1.20.3\<close> to \<^verbatim>\<open>v1.20.3\<close>,
  \<^verbatim>\<open>not-a-tag\<close> and the empty tag to the empty string. It reads only the first field of
  the tag, the text up to the first white space: for every tag with a field it returns a
  string, and the empty one when that field is not \<^verbatim>\<open>go1\<close> and does not match the grammar
  \<^verbatim>\<open>go<major>.<minor>[.<patch>][<pre>]\<close>. A tag without white space is its own field.
\<close>

theorem GoTagToSemver_laws:
  "GoTagToSemver ''go1'' = Inr ''v1.0.0'' \<and>
   GoTagToSemver ''go1.0'' = Inr [] \<and>
   GoTagToSemver ''go1.21rc2'' = Inr ''v1.21.0-rc.2'' \<and>
   GoTagToSemver ''go1.20.3'' = Inr ''v1.20.3'' \<and>
   GoTagToSemver ''not-a-tag'' = Inr [] \<and>
   GoTagToSemver [] = Inr [] \<and>
   (\<forall>tag f fs. Fields tag = f # fs \<longrightarrow>
      (\<exists>v. GoTagToSemver tag = Inr v) \<and>
      (f \<noteq> ''go1'' \<and> \<not> goTagGrammar f \<longrightarrow> GoTagToSemver tag = Inr [])) \<and>
   (\<forall>tag. tag \<noteq> [] \<and> (\<forall>n. spaceLen (drop n tag) = 0) \<longrightarrow> Fields tag = [tag])"
proof -
  have 1: "GoTagToSemver ''go1'' = Inr ''v1.0.0''" by code_simp
  have 2: "GoTagToSemver ''go1.0'' = Inr []" by code_simp
  have 3: "GoTagToSemver ''go1.21rc2'' = Inr ''v1.21.0-rc.2''" by code_simp
  have 4: "GoTagToSemver ''go1.20.3'' = Inr ''v1.20.3''" by code_simp
  have 5: "GoTagToSemver ''not-a-tag'' = Inr []" by code_simp
  have 6: "GoTagToSemver [] = Inr []" by (simp add: GoTagToSemver_def)
  have 7: "\<forall>tag f fs. Fields tag = f # fs \<longrightarrow>
      (\<exists>v. GoTagToSemver tag = Inr v) \<and>
      (f \<noteq> ''go1'' \<and> \<not> goTagGrammar f \<longrightarrow> GoTagToSemver tag = Inr [])"
  proof (intro allI impI conjI)
    fix tag f fs
    assume a: "Fields tag = f # fs"
    show "\<exists>v. GoTagToSemver tag = Inr v" by (rule GoTagToSemver_field(1)[OF a])
    assume "f \<noteq> ''go1'' \<and> \<not> goTagGrammar f"
    then show "GoTagToSemver tag = Inr []" using GoTagToSemver_field(2)[OF a] by simp
  qed
  have 8: "\<forall>tag. tag \<noteq> [] \<and> (\<forall>n. spaceLen (drop n tag) = 0) \<longrightarrow> Fields tag = [tag]"
  proof (intro allI impI)
    fix tag :: string
    assume "tag \<noteq> [] \<and> (\<forall>n. spaceLen (drop n tag) = 0)"
    then show "Fields tag = [tag]"
      using fieldsFrom_no_space[of tag "[]"] by (simp add: Fields_def)
  qed
  show ?thesis by (intro conjI) (fact 1 2 3 4 5 6 7 8)+
qed

theorem GoTagToSemver_laws_witness:
  "Fields ''nightly build'' = [''nightly'', ''build''] \<and> ''nightly'' \<noteq> ''go1'' \<and>
   \<not> goTagGrammar ''nightly'' \<and> GoTagToSemver ''nightly build'' = Inr []"
proof -
  have f: "Fields ''nightly build'' = ''nightly'' # [''build'']" by code_simp
  have g: "\<not> goTagGrammar ''nightly''"
    unfolding tagRegexpFind_grammar by code_simp
  have n: "''nightly'' \<noteq> ''go1''" by simp
  from GoTagToSemver_laws
  have "\<forall>tag f fs. Fields tag = f # fs \<longrightarrow>
      (\<exists>v. GoTagToSemver tag = Inr v) \<and>
      (f \<noteq> ''go1'' \<and> \<not> goTagGrammar f \<longrightarrow> GoTagToSemver tag = Inr [])"
    by (elim conjE)
  from this[rule_format, OF f] n g have "GoTagToSemver ''nightly build'' = Inr []"
    by (elim conjE impE) (intro conjI, assumption+)
  with f g n show ?thesis by (intro conjI)
qed

text \<open>
  C5 as stated fails: a string that does not match the grammar is not always mapped to
  the empty string, since only its first field is read.
\<close>

theorem GoTagToSemver_first_field_counterexample:
  "\<not> goTagGrammar ''go1.20.3 linux/amd64'' \<and>
   GoTagToSemver ''go1.20.3 linux/amd64'' = Inr ''v1.20.3''"
proof -
  have "\<not> goTagGrammar ''go1.20.3 linux/amd64''"
    unfolding tagRegexpFind_grammar by code_simp
  moreover have "GoTagToSemver ''go1.20.3 linux/amd64'' = Inr ''v1.20.3''" by code_simp
  ultimately show ?thesis by simp
qed

section \<open>Properties of the catalog filter\<close>

lemma spaceLen_trimLeft: "spaceLen (trimLeft s) = 0"
proof (induction s rule: trimLeft.induct)
  case (1 s)
  show ?case
  proof (cases "0 < spaceLen s")
    case True
    then show ?thesis using 1 by (simp add: trimLeft.simps[of s])
  next
    case False
    then show ?thesis by (simp add: trimLeft.simps[of s])
  qed
qed

lemma spaceLenR_trimRight: "spaceLenR (trimRight s) = 0"
proof (induction s rule: trimRight.induct)
  case (1 s)
  show ?case
  proof (cases "0 < spaceLenR s")
    case True
    then show ?thesis using 1 by (simp add: trimRight.simps[of s])
  next
    case False
    then show ?thesis by (simp add: trimRight.simps[of s])
  qed
qed

lemma trimLeft_fix: "spaceLen s = 0 \<Longrightarrow> trimLeft s = s"
  by (simp add: trimLeft.simps[of s])

lemma trimRight_fix: "spaceLenR s = 0 \<Longrightarrow> trimRight s = s"
  by (simp add: trimRight.simps[of s])

lemma prefix_trimRight: "prefix (trimRight s) s"
proof (induction s rule: trimRight.induct)
  case (1 s)
  show ?case
  proof (cases "0 < spaceLenR s")
    case True
    then have "prefix (trimRight (take (length s - spaceLenR s) s)) (take (length s - spaceLenR s) s)"
      using 1 by simp
    moreover have "prefix (take (length s - spaceLenR s) s) s" by (rule take_is_prefix)
    ultimately show ?thesis using True by (simp add: trimRight.simps[of s])
  next
    case False
    then show ?thesis by (simp add: trimRight.simps[of s])
  qed
qed

lemma spaceLen_0_iff: "spaceLen s = 0 \<longleftrightarrow> (\<forall>e\<in>set spaceEncodings. \<not> prefix e s)"
proof -
  have ne: "\<forall>e\<in>set spaceEncodings. e \<noteq> []" by (simp add: spaceEncodings_def)
  show ?thesis
    unfolding spaceLen_def using ne
    by (auto simp: find_None_iff split: option.splits dest!: find_Some_iff[THEN iffD1])
qed

lemma spaceLen_prefix: "prefix x y \<Longrightarrow> spaceLen y = 0 \<Longrightarrow> spaceLen x = 0"
  unfolding spaceLen_0_iff by (meson prefix_order.trans)

lemma set_trimLeft: "set (trimLeft s) \<subseteq> set s"
proof (induction s rule: trimLeft.induct)
  case (1 s)
  show ?case
  proof (cases "0 < spaceLen s")
    case True
    then have "set (trimLeft (drop (spaceLen s) s)) \<subseteq> set (drop (spaceLen s) s)" using 1 by simp
    then show ?thesis using True set_drop_subset[of "spaceLen s" s]
      by (simp add: trimLeft.simps[of s])
  next
    case False
    then show ?thesis by (simp add: trimLeft.simps[of s])
  qed
qed

lemma set_TrimSpace: "set (TrimSpace s) \<subseteq> set s"
  unfolding TrimSpace_def using set_trimLeft[of s] prefix_trimRight[of "trimLeft s"] set_mono_prefix
  by blast

lemma TrimSpace_idem: "TrimSpace (TrimSpace s) = TrimSpace s"
proof -
  have "spaceLen (trimRight (trimLeft s)) = 0"
    using spaceLen_prefix[OF prefix_trimRight spaceLen_trimLeft] .
  then have "trimLeft (trimRight (trimLeft s)) = trimRight (trimLeft s)"
    by (rule trimLeft_fix)
  moreover have "trimRight (trimRight (trimLeft s)) = trimRight (trimLeft s)"
    by (rule trimRight_fix[OF spaceLenR_trimRight])
  ultimately show ?thesis by (simp add: TrimSpace_def)
qed

lemma replaceNewlines_id: "CHR 0x0A \<notin> set s \<Longrightarrow> replaceNewlines s = s"
  by (induction s) (auto simp: replaceNewlines_def)

lemma newline_replaceNewlines: "CHR 0x0A \<notin> set (replaceNewlines s)"
  by (auto simp: replaceNewlines_def)

lemma normalizeDetails_idem:
  "TrimSpace (replaceNewlines (TrimSpace (replaceNewlines s))) = TrimSpace (replaceNewlines s)"
proof -
  have "CHR 0x0A \<notin> set (TrimSpace (replaceNewlines s))"
    using set_TrimSpace[of "replaceNewlines s"] newline_replaceNewlines[of s] by blast
  then show ?thesis by (simp add: replaceNewlines_id TrimSpace_idem)
qed

lemma normalizeOSVEntries_idem:
  "normalizeOSVEntries m (normalizeOSVEntries m vs) = normalizeOSVEntries m vs"
  by (simp add: normalizeOSVEntries_def normalizeDetails_idem)

lemma filterAffected_idem:
  "filterAffected env m (filterAffected env m xs) = filterAffected env m xs"
  by (induction xs) (auto simp: Let_def)

lemma filterOSVEntries_idem:
  "filterOSVEntries env m (filterOSVEntries env m vs) = filterOSVEntries env m vs"
  by (induction vs) (auto simp: Let_def filterAffected_idem)

lemma filterOSVEntries_normalize:
  "filterOSVEntries env m (normalizeOSVEntries m' vs) = normalizeOSVEntries m' (filterOSVEntries env m vs)"
  by (induction vs) (auto simp: Let_def normalizeOSVEntries_def)

lemma filterAffected_empty_version:
  "moduleVersion m = [] \<Longrightarrow> filterAffected env m xs = []"
  by (induction xs) auto

lemma filterOSVEntries_empty_version:
  "moduleVersion m = [] \<Longrightarrow> filterOSVEntries env m vs = []"
  by (induction vs) (auto simp: filterAffected_empty_version)

lemma effectiveModule_no_replace: "m_Replace (effectiveModule md) = None"
  by (induction md rule: effectiveModule.induct) auto




text \<open>
  C7. Filtering and then normalizing the result of filtering and normalizing, with the same
  module and the same platform, changes nothing.
\<close>

theorem filter_normalize_idempotent:
  "normalizeOSVEntries m (filterOSVEntries env m (normalizeOSVEntries m (filterOSVEntries env m vulns)))
     = normalizeOSVEntries m (filterOSVEntries env m vulns)"
  by (simp add: filterOSVEntries_normalize filterOSVEntries_idem normalizeOSVEntries_idem)




text \<open>
  C3. For a module whose version, taken from its replacement when it has one, is the empty
  string, the filter keeps no Affected record and returns no entry, whatever the entries
  are; normalizing keeps the list empty, and the step of the fetch loop for a module whose
  effective module has the empty version stores nothing in \<^verbatim>\<open>mod2OSV\<close>, the map from which
  the entries of every package are taken.
\<close>

theorem filterOSVEntries_unknown_version:
  "(moduleVersion module = [] \<longrightarrow>
      (\<forall>v\<in>set vulns. filterAffected env module (ent_Affected v) = []) \<and>
      filterOSVEntries env module vulns = [] \<and>
      normalizeOSVEntries module (filterOSVEntries env module vulns) = []) \<and>
   (m_Version (effectiveModule md) = [] \<longrightarrow>
      fetchModules fenv (md # mods) mod2OSV =
        (if \<not> fx_CheckPath fenv (m_Path (effectiveModule md)) then fetchModules fenv mods mod2OSV
         else case fx_GetByModule fenv (m_Path (effectiveModule md)) of
                Inl err \<Rightarrow> Inl err
              | Inr vs \<Rightarrow> fetchModules fenv mods mod2OSV))"
proof (intro conjI impI)
  assume e: "moduleVersion module = []"
  show "\<forall>v\<in>set vulns. filterAffected env module (ent_Affected v) = []"
    using e by (simp add: filterAffected_empty_version)
  show "filterOSVEntries env module vulns = []"
    using e by (rule filterOSVEntries_empty_version)
  then show "normalizeOSVEntries module (filterOSVEntries env module vulns) = []"
    by (simp add: normalizeOSVEntries_def)
next
  assume "m_Version (effectiveModule md) = []"
  then have "moduleVersion (effectiveModule md) = []"
    by (simp add: moduleVersion_def effectiveModule_no_replace)
  then have "\<And>vs. filterOSVEntries (fx_filter fenv) (effectiveModule md) vs = []"
    by (rule filterOSVEntries_empty_version)
  then show "fetchModules fenv (md # mods) mod2OSV =
        (if \<not> fx_CheckPath fenv (m_Path (effectiveModule md)) then fetchModules fenv mods mod2OSV
         else case fx_GetByModule fenv (m_Path (effectiveModule md)) of
                Inl err \<Rightarrow> Inl err
              | Inr vs \<Rightarrow> fetchModules fenv mods mod2OSV)"
    by (simp add: Let_def normalizeOSVEntries_def split: sum.splits)
qed

theorem filterOSVEntries_unknown_version_witness:
  "moduleVersion (Module ''b.com/m'' ''v1.0.1'' (Some (Module ''../m'' [] None))) = [] \<and>
   filterOSVEntries exFilterEnv (Module ''b.com/m'' ''v1.0.1'' (Some (Module ''../m'' [] None)))
     [exEntry] = [] \<and>
   m_Version (effectiveModule (Module ''b.com/m'' [] None)) = [] \<and>
   fetchModules exFetchEnv [Module ''b.com/m'' [] None] [] = Inr [] \<and>
   fetchModules exFetchEnv [Module ''b.com/m'' ''v1.0.1'' None] []
     = Inr [(''b.com/m@v1.0.1'', [exEntry\<lparr>ent_Details := ''Some'', ent_Affected := [exAffected]\<rparr>])]"
proof -
  let ?r = "Module ''b.com/m'' ''v1.0.1'' (Some (Module ''../m'' [] None))"
  let ?u = "Module ''b.com/m'' [] None"
  have h1: "moduleVersion ?r = []" by (simp add: moduleVersion_def)
  have h2: "m_Version (effectiveModule ?u) = []" by simp
  note T = filterOSVEntries_unknown_version[of ?r "[exEntry]" exFilterEnv ?u exFetchEnv "[]" "[]"]
  from T h1 have c1: "filterOSVEntries exFilterEnv ?r [exEntry] = []" by blast
  from T h2 have c2: "fetchModules exFetchEnv [?u] [] = Inr []"
    by (simp add: exFetchEnv_def)
  have ts: "TrimSpace ''Some '' = ''Some''" by code_simp
  have c3: "fetchModules exFetchEnv [Module ''b.com/m'' ''v1.0.1'' None] []
     = Inr [(''b.com/m@v1.0.1'', [exEntry\<lparr>ent_Details := ''Some'', ent_Affected := [exAffected]\<rparr>])]"
    by (simp add: exFetchEnv_def exEntry_def exAffected_def exImport_def exFilterEnv_def
        GoEcosystem_def moduleVersion_def matchesPlatform_def normalizeOSVEntries_def
        replaceNewlines_def modKey_def ts)
  show ?thesis using h1 h2 c1 c2 c3 by simp
qed

section \<open>Properties of the analyzer\<close>

text \<open>
  C9. For every object that is not a \<^verbatim>\<open>*types.Func\<close>, \<^verbatim>\<open>isDirectlyVulnerable\<close> returns the
  empty list, whatever the catalog says about its name.
\<close>

theorem isDirectlyVulnerable_only_Func:
  "\<not> isFunc obj \<Longrightarrow> isDirectlyVulnerable c obj = []"
  by (cases obj) (simp_all add: isFunc_def)

theorem isDirectlyVulnerable_only_Func_witness:
  "\<not> isFunc exVar \<and> isDirectlyVulnerable exCatalog exVar = [] \<and>
   objName exVar = objName exVuln \<and> objPkg exVar = objPkg exVuln \<and>
   isDirectlyVulnerable exCatalog exVuln = [''GO02'']"
proof -
  have h: "\<not> isFunc exVar" by (simp add: isFunc_def exVar_def)
  have v: "isDirectlyVulnerable exCatalog exVuln = [''GO02'']"
    by (simp add: exVuln_def exCatalog_def exEntry_def exAffected_def exImport_def
        lookupVulns_def entryHits_def affectedSymbols_def dbFuncName_def)
  show ?thesis
    using isDirectlyVulnerable_only_Func[OF h, of exCatalog] h v
    by (simp add: exVar_def exVuln_def)
qed

text \<open>
  C10. When the file named by \<^verbatim>\<open>-vulns-json\<close> is read and decoded and maps no package to
  entries, \<^verbatim>\<open>run\<close> returns at once without an error, with no diagnostic and no fact, for
  every package and whatever the bound of the path query; and \<^verbatim>\<open>run\<close> returns an error
  exactly when the flag is not set or the file cannot be opened or decoded.
\<close>

theorem run_empty_catalog:
  "(vulnsJSONFile \<noteq> [] \<and> fs vulnsJSONFile = Decoded [] \<longrightarrow>
      run n (Refresh vulnsJSONFile fs zeroCatalog) ps g
        = Some (Inr \<lparr>Diagnostics = [], ObjectFactsOut = [], PackageFactOut = None\<rparr>)) \<and>
   ((\<exists>err. run n (Refresh vulnsJSONFile fs zeroCatalog) ps g = Some (Inl err)) \<longleftrightarrow>
      (vulnsJSONFile = [] \<or> (\<exists>err. fs vulnsJSONFile = OpenFailed err)
       \<or> (\<exists>err. fs vulnsJSONFile = DecodeFailed err)))"
proof (intro conjI impI)
  assume "vulnsJSONFile \<noteq> [] \<and> fs vulnsJSONFile = Decoded []"
  then show "run n (Refresh vulnsJSONFile fs zeroCatalog) ps g
        = Some (Inr \<lparr>Diagnostics = [], ObjectFactsOut = [], PackageFactOut = None\<rparr>)"
    by (simp add: run_def Refresh_def readFile_def zeroCatalog_def)
next
  show "(\<exists>err. run n (Refresh vulnsJSONFile fs zeroCatalog) ps g = Some (Inl err)) \<longleftrightarrow>
      (vulnsJSONFile = [] \<or> (\<exists>err. fs vulnsJSONFile = OpenFailed err)
       \<or> (\<exists>err. fs vulnsJSONFile = DecodeFailed err))"
  proof (cases "vulnsJSONFile = []")
    case True
    then show ?thesis by (simp add: run_def Refresh_def)
  next
    case False
    then show ?thesis
      by (cases "fs vulnsJSONFile")
         (auto simp: run_def Refresh_def readFile_def zeroCatalog_def
               split: option.splits prod.splits)
  qed
qed

theorem run_empty_catalog_witness:
  "''vulns.json'' \<noteq> [] \<and> (\<lambda>f. Decoded []) ''vulns.json'' = Decoded [] \<and>
   run 0 (Refresh ''vulns.json'' (\<lambda>f. Decoded []) zeroCatalog) exPass exGraphAB
     = Some (Inr \<lparr>Diagnostics = [], ObjectFactsOut = [], PackageFactOut = None\<rparr>) \<and>
   run 6 (Refresh [] (\<lambda>f. Decoded []) zeroCatalog) exPass exGraphAB
     = Some (Inl ''catalog not initialized'')"
proof -
  have h: "''vulns.json'' \<noteq> [] \<and> (\<lambda>f. Decoded []) ''vulns.json'' = Decoded []" by simp
  have "run 0 (Refresh ''vulns.json'' (\<lambda>f. Decoded []) zeroCatalog) exPass exGraphAB
     = Some (Inr \<lparr>Diagnostics = [], ObjectFactsOut = [], PackageFactOut = None\<rparr>)"
    using run_empty_catalog[of "''vulns.json''" "\<lambda>f. Decoded []" 0 exPass exGraphAB] h by blast
  moreover have "run 6 (Refresh [] (\<lambda>f. Decoded []) zeroCatalog) exPass exGraphAB
     = Some (Inl ''catalog not initialized'')"
    by (simp add: run_def Refresh_def)
  ultimately show ?thesis by simp
qed

end
